theory Spec2Isabelle
  imports Main "HOL-Library.Word" "HOL-Library.Sublist"
begin

section \<open>The HTTP exchange of the client library (cclient/http/http.c)\<close>

text \<open>
  The file sends one POST request over a TLS socket and reads the response with the
  callback-driven parser of the http_parser library. Two collaborators are outside the
  file: the socket (mbedtls_socket_connect, mbedtls_socket_send, mbedtls_socket_recv)
  and http_parser_execute. Their behaviour is data here: a connection is given by the
  results its calls return, in call order, and each positive receive carries what the
  parser did with the received bytes (the callbacks it invoked, in order, and the number
  of bytes it reports as parsed). A function that calls the socket more often than the
  connection describes has no result (\<open>None\<close>), and neither has a call during which
  the C program stores outside an array, where C leaves its behaviour undefined.

  \<open>size_t\<close> is taken as 64 bits wide (the header is formatted with \<open>%lu\<close>).
\<close>

subsection \<open>Return codes, status, buffers\<close>

text \<open>The values of \<open>retcode_t\<close> that the file uses; they are distinct enum members.\<close>

datatype retcode_t =
    RC_OK
  | RC_ERROR
  | RC_NULL_PARAM
  | RC_UTILS_SOCKET_CONNECT
  | RC_UTILS_SOCKET_SEND
  | RC_UTILS_SOCKET_RECV
  | RC_CCLIENT_HTTP
  | RC_CCLIENT_HTTP_REQ

datatype IOTA_REQUEST_STATUS =
    IOTA_REQUEST_STATUS_OK
  | IOTA_REQUEST_STATUS_DONE
  | IOTA_REQUEST_STATUS_ERROR

text \<open>
  The response buffer \<open>char_buffer_t\<close>: \<open>length_buf\<close> is its \<open>length\<close> field (the
  allocated size) and \<open>data\<close> is the memory reached from its \<open>data\<close> pointer, as a store
  from byte offsets to the bytes written there. The store is not cut off at
  \<open>length_buf\<close>: \<open>memcpy\<close> writes wherever it is told to, and an offset at or past
  \<open>length_buf\<close> in the domain of the store is a write outside the allocation.
\<close>

record char_buffer_t =
  length_buf :: nat
  data :: "nat \<rightharpoonup> char"

text \<open>The response context handed to the parser callbacks (struct \<open>_response_ctx\<close>).\<close>

record response_ctx =
  response :: char_buffer_t
  offset :: nat
  status :: IOTA_REQUEST_STATUS

definition UINT64_MAX :: "64 word" where
  "UINT64_MAX = 18446744073709551615"

text \<open>\<open>memcpy (dst + off, src, n)\<close>: the \<open>n\<close> bytes of \<open>src\<close> go to offsets \<open>off, off + 1, ...\<close>.\<close>

fun memcpy :: "(nat \<rightharpoonup> 'a) \<Rightarrow> nat \<Rightarrow> 'a list \<Rightarrow> (nat \<rightharpoonup> 'a)" where
  "memcpy m off [] = m"
| "memcpy m off (x # xs) = memcpy (m(off \<mapsto> x)) (Suc off) xs"

text \<open>
  Modelled from the spec: \<open>char_buffer_allocate\<close> is declared in a header outside this
  file. Per the specification it allocates the buffer with capacity equal to the requested
  length; the fresh memory holds no written byte. Whether an allocation of \<open>n\<close> bytes
  succeeds is the parameter \<open>alloc_ok\<close>; \<open>None\<close> stands for any result other than
  \<open>RC_OK\<close>.
\<close>

definition char_buffer_allocate :: "(nat \<Rightarrow> bool) \<Rightarrow> char_buffer_t \<Rightarrow> nat \<Rightarrow> char_buffer_t option" where
  "char_buffer_allocate alloc_ok b n =
     (if alloc_ok n then Some \<lparr>length_buf = n, data = Map.empty\<rparr> else None)"

subsection \<open>The parser callbacks\<close>

text \<open>
  \<open>request_parse_header_complete\<close> reads \<open>response->parser->content_length\<close>; the value
  of that field at the time of the call is the argument \<open>content_length\<close>. The callbacks
  return an \<open>int\<close>: \<open>RC_OK\<close> is 0.
\<close>

definition request_parse_header_complete ::
  "(nat \<Rightarrow> bool) \<Rightarrow> 64 word \<Rightarrow> response_ctx \<Rightarrow> int \<times> response_ctx" where
  "request_parse_header_complete alloc_ok content_length r =
     (let data_len = content_length in
      if data_len = UINT64_MAX then (- 1, r\<lparr>status := IOTA_REQUEST_STATUS_ERROR\<rparr>)
      else (case char_buffer_allocate alloc_ok (response r) (unat data_len) of
              None \<Rightarrow> (- 1, r\<lparr>status := IOTA_REQUEST_STATUS_ERROR\<rparr>)
            | Some b \<Rightarrow> (0, r\<lparr>response := b, offset := 0\<rparr>)))"

text \<open>The pair \<open>(at, length)\<close> of the C function is the byte list \<open>at\<close>.\<close>

definition request_parse_data :: "response_ctx \<Rightarrow> char list \<Rightarrow> int \<times> response_ctx" where
  "request_parse_data r at =
     (0, r\<lparr>response := (response r)\<lparr>data := memcpy (data (response r)) (offset r) at\<rparr>,
           offset := offset r + length at\<rparr>)"

definition request_parse_message_complete :: "response_ctx \<Rightarrow> int \<times> response_ctx" where
  "request_parse_message_complete r = (0, r\<lparr>status := IOTA_REQUEST_STATUS_DONE\<rparr>)"

text \<open>
  The three callbacks registered in \<open>http_parser_settings\<close>: \<open>on_headers_complete\<close> (with
  the parser's \<open>content_length\<close> at that moment), \<open>on_body\<close> and \<open>on_message_complete\<close>.
\<close>

datatype parser_event =
    Headers_complete "64 word"
  | Body "char list"
  | Message_complete

fun callback :: "(nat \<Rightarrow> bool) \<Rightarrow> parser_event \<Rightarrow> response_ctx \<Rightarrow> int \<times> response_ctx" where
  "callback alloc_ok (Headers_complete cl) r = request_parse_header_complete alloc_ok cl r"
| "callback alloc_ok (Body at) r = request_parse_data r at"
| "callback alloc_ok Message_complete r = request_parse_message_complete r"

text \<open>
  The effect of one \<open>http_parser_execute\<close> call on the context: the callbacks run in order,
  and the parser invokes no further callback once one has returned non-zero.
\<close>

fun run_callbacks :: "(nat \<Rightarrow> bool) \<Rightarrow> parser_event list \<Rightarrow> response_ctx \<Rightarrow> response_ctx" where
  "run_callbacks alloc_ok [] r = r"
| "run_callbacks alloc_ok (e # es) r =
     (case callback alloc_ok e r of
        (rc, r') \<Rightarrow> if rc \<noteq> 0 then r' else run_callbacks alloc_ok es r')"

subsection \<open>Reading the response\<close>

text \<open>
  One call of \<open>mbedtls_socket_recv\<close> together with the following \<open>http_parser_execute\<close>:
  \<open>num_received\<close> is the result of the receive (positive: that many bytes, zero: end of
  stream, negative: error); for a positive receive, \<open>callbacks\<close> are the callbacks the
  parser invokes on those bytes and \<open>parsed\<close> is the value it returns.
\<close>

datatype recv_step = Recv (num_received: int) (callbacks: "parser_event list") (parsed: int)

text \<open>The \<open>while\<close> loop of \<open>http_response_read\<close> and the two statements after it.\<close>

fun recv_loop ::
  "(nat \<Rightarrow> bool) \<Rightarrow> response_ctx \<Rightarrow> recv_step list \<Rightarrow> (retcode_t \<times> char_buffer_t) option" where
  "recv_loop alloc_ok r [] = None"
| "recv_loop alloc_ok r (s # ss) =
     (if num_received s > 0 then
        (let r' = run_callbacks alloc_ok (callbacks s) r in
         if parsed s < num_received s \<or> status r' = IOTA_REQUEST_STATUS_ERROR
           then Some (RC_UTILS_SOCKET_RECV, response r')
         else if status r' = IOTA_REQUEST_STATUS_DONE
           then Some (RC_OK, response r')
         else recv_loop alloc_ok r' ss)
      else if num_received s \<le> 0 then Some (RC_CCLIENT_HTTP, response r)
      else Some (RC_OK, response r))"

text \<open>
  \<open>http_response_read\<close> writes into the \<open>char_buffer_t\<close> of its caller; the buffer as the
  call leaves it is returned with the return code.
\<close>

definition http_response_read ::
  "(nat \<Rightarrow> bool) \<Rightarrow> recv_step list \<Rightarrow> char_buffer_t \<Rightarrow> (retcode_t \<times> char_buffer_t) option" where
  "http_response_read alloc_ok steps resp =
     recv_loop alloc_ok
       \<lparr>response = resp, offset = 0, status = IOTA_REQUEST_STATUS_OK\<rparr> steps"

text \<open>The bytes a caller reads from a buffer: offsets \<open>0 ..< length_buf\<close> of its store.\<close>

definition buffer_bytes :: "char_buffer_t \<Rightarrow> char option list" where
  "buffer_bytes b = map (data b) [0 ..< length_buf b]"

subsection \<open>Writing the request\<close>

record http_info_t =
  path :: string
  host :: string
  api_version :: int
  content_type :: string
  accept :: string

definition CRLF :: string where
  "CRLF = [CHR 0x0D, CHR 0x0A]"

text \<open>Decimal digits, as \<open>%lu\<close> and \<open>%d\<close> print them.\<close>

definition digit_char :: "nat \<Rightarrow> char" where
  "digit_char d = ''0123456789'' ! d"

fun fmt_lu :: "nat \<Rightarrow> string" where
  "fmt_lu n = (if n < 10 then [digit_char n] else fmt_lu (n div 10) @ [digit_char (n mod 10)])"

definition fmt_d :: "int \<Rightarrow> string" where
  "fmt_d i = (if i < 0 then CHR ''-'' # fmt_lu (nat (- i)) else fmt_lu (nat i))"

text \<open>
  \<open>sprintf (header, header_template, path, host, api_version, content_type, accept,
  data_length)\<close>: the text it produces. The \<open>%s\<close> arguments are C strings, so none of the
  characters is NUL.
\<close>

definition header_template :: "string \<Rightarrow> string \<Rightarrow> int \<Rightarrow> string \<Rightarrow> string \<Rightarrow> nat \<Rightarrow> string" where
  "header_template p h v ct ac n =
     ''POST '' @ p @ '' HTTP/1.1'' @ CRLF @
     ''Host: '' @ h @ CRLF @
     ''X-IOTA-API-Version: '' @ fmt_d v @ CRLF @
     ''Content-Type: '' @ ct @ CRLF @
     ''Accept: '' @ ac @ CRLF @
     ''Content-Length: '' @ fmt_lu n @ CRLF @
     CRLF"

definition header_size :: nat where
  "header_size = 1024"

text \<open>
  The memory reached from \<open>header\<close> after the \<open>sprintf\<close>: the array is zero-initialised
  (\<open>char header[1024] = {}\<close>), then the text and its terminating NUL are stored from
  offset 0 on, with no bound. An offset at or past \<open>header_size\<close> in the domain of the
  result is a write outside the array.
\<close>

definition sprintf_header :: "http_info_t \<Rightarrow> nat \<Rightarrow> (nat \<rightharpoonup> char)" where
  "sprintf_header http_settings data_length =
     memcpy (\<lambda>i. if i < header_size then Some (CHR 0x00) else None) 0
       (header_template (path http_settings) (host http_settings) (api_version http_settings)
          (content_type http_settings) (accept http_settings) data_length @ [CHR 0x00])"

text \<open>
  \<open>mbedtls_socket_send (ctx, buf, sz)\<close> on a connection whose next send returns \<open>n\<close>:
  the result is \<open>n\<close>, and the first \<open>n\<close> of the \<open>sz\<close> bytes offered have gone out.
\<close>

definition mbedtls_socket_send :: "int \<Rightarrow> char list \<Rightarrow> nat \<Rightarrow> int \<times> char list" where
  "mbedtls_socket_send n buf sz = (n, take (nat n) (take sz buf))"

text \<open>
  \<open>http_request_header\<close>: \<open>header\<close> is the memory reached from the array after the
  \<open>sprintf\<close>. The stores are contiguous from offset 0, so the \<open>sprintf\<close> has stored
  outside the array exactly when offset \<open>header_size\<close>, the first one past its end, holds
  a byte; the behaviour of the C program is then undefined and the call has no result.
  Otherwise the array holds the text and its NUL, \<open>strlen (header)\<close> is the length of the
  text, and the result is the result of the single send, with the bytes that went out
  and the rest of the connection's send results.
\<close>

definition http_request_header ::
  "int list \<Rightarrow> http_info_t \<Rightarrow> nat \<Rightarrow> (int \<times> char list \<times> int list) option" where
  "http_request_header sends http_settings data_length =
     (let header = sprintf_header http_settings data_length;
          text = header_template (path http_settings) (host http_settings)
                   (api_version http_settings) (content_type http_settings)
                   (accept http_settings) data_length
      in if header header_size \<noteq> None then None
         else (case sends of
                 [] \<Rightarrow> None
               | n # rest \<Rightarrow>
                   (case mbedtls_socket_send n text (length text) of
                      (num_sent, out) \<Rightarrow> Some (num_sent, out, rest))))"

text \<open>
  The loop of \<open>http_request_data\<close>. \<open>ptr\<close> is the offset of the cursor into \<open>data\<close>;
  \<open>data_length\<close> is a \<open>size_t\<close>, so \<open>data_length -= num_sent\<close> wraps modulo \<open>2 ^ 64\<close>.
  The result is the return code with the bytes that went out.
\<close>

fun http_request_data ::
  "int list \<Rightarrow> char list \<Rightarrow> nat \<Rightarrow> nat \<Rightarrow> (retcode_t \<times> char list) option" where
  "http_request_data [] dat ptr data_length =
     (if data_length > 0 then None else Some (RC_OK, []))"
| "http_request_data (n # sends) dat ptr data_length =
     (if data_length > 0 then
        (case mbedtls_socket_send n (drop ptr dat) data_length of
           (num_sent, out) \<Rightarrow>
             if num_sent < 0 then Some (RC_UTILS_SOCKET_SEND, [])
             else map_option (\<lambda>(rc, w). (rc, out @ w))
                    (http_request_data sends dat (ptr + nat num_sent)
                       (nat ((int data_length - num_sent) mod 2 ^ 64))))
      else Some (RC_OK, []))"

subsection \<open>One attempt and the retry loop\<close>

text \<open>
  A connection: the descriptor \<open>mbedtls_socket_connect\<close> returns, the results of its
  sends and its receive steps, each in call order.
\<close>

record connection =
  sockfd :: int
  sends :: "int list"
  recvs :: "recv_step list"

record iota_client_service_t =
  http :: http_info_t

text \<open>
  \<open>cclient_socket_send\<close>: the request body \<open>obj\<close> is read only and is given by its bytes
  (\<open>obj->length\<close> is their number). The result is the return code, the caller's response
  buffer as the attempt leaves it, and the bytes that went out on the connection.
\<close>

definition cclient_socket_send ::
  "(nat \<Rightarrow> bool) \<Rightarrow> connection \<Rightarrow> iota_client_service_t \<Rightarrow> char list \<Rightarrow> char_buffer_t
     \<Rightarrow> (retcode_t \<times> char_buffer_t \<times> char list) option" where
  "cclient_socket_send alloc_ok c service obj resp =
     (let http_settings = http service in
      if sockfd c \<ge> 0 then
        (case http_request_header (sends c) http_settings (length obj) of
           None \<Rightarrow> None
         | Some (hdr_sent, out1, rest) \<Rightarrow>
             if hdr_sent \<noteq> - 1 then
               (case http_request_data rest obj 0 (length obj) of
                  None \<Rightarrow> None
                | Some (result, out2) \<Rightarrow>
                    if result = RC_OK then
                      (case http_response_read alloc_ok (recvs c) resp of
                         None \<Rightarrow> None
                       | Some (result', resp') \<Rightarrow> Some (result', resp', out1 @ out2))
                    else Some (result, resp, out1 @ out2))
             else Some (RC_CCLIENT_HTTP_REQ, resp, out1))
      else Some (RC_UTILS_SOCKET_CONNECT, resp, []))"

text \<open>
  The \<open>while\<close> loop of \<open>iota_service_query\<close>. Every attempt opens a connection of its own:
  \<open>cs\<close> are the connections still to come, and the ones not used are returned, so the
  number of attempts made is the number of connections consumed. The response buffer is
  the one object of the caller, handed to every attempt.
\<close>

fun query_loop ::
  "nat \<Rightarrow> (nat \<Rightarrow> bool) \<Rightarrow> iota_client_service_t \<Rightarrow> char list \<Rightarrow> connection list
     \<Rightarrow> retcode_t \<Rightarrow> char_buffer_t \<Rightarrow> nat
     \<Rightarrow> (retcode_t \<times> char_buffer_t \<times> connection list) option" where
  "query_loop CCLIENT_SOCKET_RETRY alloc_ok service obj [] ret resp retry =
     (if ret = RC_UTILS_SOCKET_RECV then
        (if retry > CCLIENT_SOCKET_RETRY then Some (ret, resp, []) else None)
      else Some (ret, resp, []))"
| "query_loop CCLIENT_SOCKET_RETRY alloc_ok service obj (c # cs) ret resp retry =
     (if ret = RC_UTILS_SOCKET_RECV then
        (if retry > CCLIENT_SOCKET_RETRY then Some (ret, resp, c # cs)
         else (case cclient_socket_send alloc_ok c service obj resp of
                 None \<Rightarrow> None
               | Some (ret', resp', out) \<Rightarrow>
                   query_loop CCLIENT_SOCKET_RETRY alloc_ok service obj cs ret' resp' (retry + 1)))
      else Some (ret, resp, c # cs))"

text \<open>
  \<open>iota_service_query\<close>: a pointer argument is \<open>None\<close> when it is NULL. The retry ceiling
  \<open>CCLIENT_SOCKET_RETRY\<close> is a macro defined outside the file and is a parameter.
\<close>

definition iota_service_query ::
  "nat \<Rightarrow> (nat \<Rightarrow> bool) \<Rightarrow> connection list \<Rightarrow> iota_client_service_t option \<Rightarrow> char list option
     \<Rightarrow> char_buffer_t option \<Rightarrow> (retcode_t \<times> char_buffer_t option \<times> connection list) option" where
  "iota_service_query CCLIENT_SOCKET_RETRY alloc_ok cs service_opaque obj response_out =
     (case (service_opaque, obj, response_out) of
        (Some service, Some body, Some resp) \<Rightarrow>
          (case cs of
             [] \<Rightarrow> None
           | c # cs' \<Rightarrow>
               (case cclient_socket_send alloc_ok c service body resp of
                  None \<Rightarrow> None
                | Some (ret, resp', out) \<Rightarrow>
                    map_option (\<lambda>(ret', resp'', cs''). (ret', Some resp'', cs''))
                      (query_loop CCLIENT_SOCKET_RETRY alloc_ok service body cs' ret resp' 0)))
      | _ \<Rightarrow> Some (RC_NULL_PARAM, response_out, cs))"

subsection \<open>Auxiliary notions and example data\<close>

text \<open>
  Attempts made one after the other: each is \<open>cclient_socket_send\<close> on a connection of
  its own and on the response buffer as the attempt before left it (the first on the
  buffer given), with nothing else carried over. The result lists the return code and the
  buffer of every attempt, in order.
\<close>

fun attempts_in_turn ::
  "(nat \<Rightarrow> bool) \<Rightarrow> iota_client_service_t \<Rightarrow> char list \<Rightarrow> connection list \<Rightarrow> char_buffer_t
     \<Rightarrow> (retcode_t \<times> char_buffer_t) list option" where
  "attempts_in_turn alloc_ok service body [] resp = Some []"
| "attempts_in_turn alloc_ok service body (c # cs) resp =
     (case cclient_socket_send alloc_ok c service body resp of
        None \<Rightarrow> None
      | Some (ret, resp', out) \<Rightarrow>
          map_option ((#) (ret, resp')) (attempts_in_turn alloc_ok service body cs resp'))"

text \<open>
  A callback invocation is quiet when the callback returns 0 and leaves the status as it
  is: a body event always, a header-complete event with a declared length whose allocation
  succeeds; the message-complete event is not (it sets the status).
\<close>

fun quiet :: "(nat \<Rightarrow> bool) \<Rightarrow> parser_event \<Rightarrow> bool" where
  "quiet alloc_ok (Headers_complete cl) = (cl \<noteq> UINT64_MAX \<and> alloc_ok (unat cl))"
| "quiet alloc_ok (Body at) = True"
| "quiet alloc_ok Message_complete = False"

text \<open>Reading a decimal number back, to state what \<open>fmt_lu\<close> prints.\<close>

definition parse_lu :: "string \<Rightarrow> nat" where
  "parse_lu ds = foldl (\<lambda>a c. 10 * a + (of_char c - 48)) 0 ds"

text \<open>
  The request of the specification's scenario: path \<open>/api\<close>, host \<open>node.example\<close>,
  version 1, body \<open>hello world\<close>; its header is 143 bytes long.
\<close>

definition example_service :: iota_client_service_t where
  "example_service = \<lparr>http = \<lparr>path = ''/api'', host = ''node.example'', api_version = 1,
     content_type = ''application/json'', accept = ''application/json''\<rparr>\<rparr>"

definition example_header :: string where
  "example_header =
     ''POST /api HTTP/1.1'' @ CRLF @ ''Host: node.example'' @ CRLF @
     ''X-IOTA-API-Version: 1'' @ CRLF @ ''Content-Type: application/json'' @ CRLF @
     ''Accept: application/json'' @ CRLF @ ''Content-Length: 11'' @ CRLF @ CRLF"

definition empty_buffer :: char_buffer_t where
  "empty_buffer = \<lparr>length_buf = 0, data = Map.empty\<rparr>"

definition hello_buffer :: char_buffer_t where
  "hello_buffer = \<lparr>length_buf = 5, data = memcpy Map.empty 0 ''hello''\<rparr>"

text \<open>
  Connections for the scenario. On each the header goes out in one send and the body in
  another. \<open>conn_complete\<close> delivers the headers (declared length 5) and then the body
  \<open>hello\<close>; on \<open>conn_parse_error\<close> the parser consumes 3 of 8 received bytes; on
  \<open>conn_closed_early\<close> the stream ends after 2 of the 5 declared body bytes; on
  \<open>conn_partial_then_parse_error\<close> the parser stops short after 2 body bytes; on
  \<open>conn_overflow\<close> the parser reports 2 body bytes for a declared length of 1; on
  \<open>conn_header_send_fails\<close> the send of the header returns the error value -2; on
  \<open>conn_closed_at_once\<close> the first receive reports the end of the stream.
\<close>

definition conn_complete :: connection where
  "conn_complete = \<lparr>sockfd = 3, sends = [143, 11],
     recvs = [Recv 60 [Headers_complete 5] 60, Recv 5 [Body ''hello'', Message_complete] 5]\<rparr>"

definition conn_parse_error :: connection where
  "conn_parse_error = \<lparr>sockfd = 3, sends = [143, 11], recvs = [Recv 8 [] 3]\<rparr>"

definition conn_closed_early :: connection where
  "conn_closed_early = \<lparr>sockfd = 3, sends = [143, 11],
     recvs = [Recv 60 [Headers_complete 5] 60, Recv 2 [Body ''he''] 2, Recv 0 [] 0]\<rparr>"

definition conn_partial_then_parse_error :: connection where
  "conn_partial_then_parse_error = \<lparr>sockfd = 3, sends = [143, 11],
     recvs = [Recv 60 [Headers_complete 5] 60, Recv 4 [Body ''he''] 2]\<rparr>"

definition conn_overflow :: connection where
  "conn_overflow = \<lparr>sockfd = 3, sends = [143, 11],
     recvs = [Recv 60 [Headers_complete 1, Body ''ab'', Message_complete] 60]\<rparr>"

definition conn_header_send_fails :: connection where
  "conn_header_send_fails = \<lparr>sockfd = 3, sends = [- 2, 11],
     recvs = [Recv 60 [Headers_complete 5] 60, Recv 5 [Body ''hello'', Message_complete] 5]\<rparr>"

definition conn_closed_at_once :: connection where
  "conn_closed_at_once = \<lparr>sockfd = 3, sends = [143, 11], recvs = [Recv 0 [] 0]\<rparr>"

text \<open>A service whose path alone is as long as the header array.\<close>

definition long_path_service :: iota_client_service_t where
  "long_path_service = \<lparr>http = \<lparr>path = replicate 1024 (CHR ''a''), host = ''node.example'',
     api_version = 1, content_type = ''application/json'', accept = ''application/json''\<rparr>\<rparr>"

text \<open>A connection on which the 1163 bytes of the header of that service go out in one send.\<close>

definition conn_long_header :: connection where
  "conn_long_header = \<lparr>sockfd = 3, sends = [1163, 11],
     recvs = [Recv 60 [Headers_complete 5] 60, Recv 5 [Body ''hello'', Message_complete] 5]\<rparr>"

section \<open>Lemmas\<close>

lemma memcpy_apply:
  "memcpy m off xs i = (if off \<le> i \<and> i < off + length xs then Some (xs ! (i - off)) else m i)"
proof (induction xs arbitrary: m off i)
  case Nil
  then show ?case by auto
next
  case (Cons x xs)
  show ?case
  proof (cases "i = off")
    case True
    then show ?thesis by (simp add: Cons.IH)
  next
    case False
    then show ?thesis by (auto simp: Cons.IH nth_Cons')
  qed
qed

lemma memcpy_dom: "dom (memcpy m off xs) = dom m \<union> {off ..< off + length xs}"
  by (auto simp: dom_def memcpy_apply)

lemma memcpy_append:
  "memcpy m off (xs @ ys) = memcpy (memcpy m off xs) (off + length xs) ys"
  by (induction xs arbitrary: m off) simp_all

lemma callback_quiet:
  "quiet alloc_ok e \<Longrightarrow> fst (callback alloc_ok e r) = 0 \<and> status (snd (callback alloc_ok e r)) = status r"
  by (cases e) (simp_all add: request_parse_header_complete_def char_buffer_allocate_def
      request_parse_data_def)

lemma run_callbacks_quiet_status:
  "list_all (quiet alloc_ok) evs \<Longrightarrow> status (run_callbacks alloc_ok evs r) = status r"
proof (induction evs arbitrary: r)
  case Nil
  then show ?case by simp
next
  case (Cons e evs)
  obtain rc r' where cb: "callback alloc_ok e r = (rc, r')" by (cases "callback alloc_ok e r")
  from Cons.prems have q: "quiet alloc_ok e" and qs: "list_all (quiet alloc_ok) evs" by simp_all
  from callback_quiet [OF q, of r] cb have "rc = 0" and "status r' = status r" by simp_all
  with Cons.IH [OF qs, of r'] cb show ?case by simp
qed

lemma run_callbacks_append:
  "list_all (quiet alloc_ok) xs \<Longrightarrow>
   run_callbacks alloc_ok (xs @ ys) r = run_callbacks alloc_ok ys (run_callbacks alloc_ok xs r)"
proof (induction xs arbitrary: r)
  case Nil
  then show ?case by simp
next
  case (Cons e xs)
  obtain rc r' where cb: "callback alloc_ok e r = (rc, r')" by (cases "callback alloc_ok e r")
  from Cons.prems have q: "quiet alloc_ok e" and qs: "list_all (quiet alloc_ok) xs" by simp_all
  from callback_quiet [OF q, of r] cb have "rc = 0" by simp
  with Cons.IH [OF qs, of r'] cb show ?case by simp
qed

lemma run_callbacks_bodies:
  "run_callbacks alloc_ok (map Body ps) r =
     r\<lparr>response := (response r)\<lparr>data := memcpy (data (response r)) (offset r) (concat ps)\<rparr>,
       offset := offset r + length (concat ps)\<rparr>"
proof (induction ps arbitrary: r)
  case Nil
  then show ?case by simp
next
  case (Cons p ps)
  show ?case
    by (simp add: Cons.IH request_parse_data_def memcpy_append add.assoc)
qed

lemma run_callbacks_headers_bodies:
  assumes "cl \<noteq> UINT64_MAX" and "alloc_ok (unat cl)"
  shows "run_callbacks alloc_ok (Headers_complete cl # map Body ps) r =
     r\<lparr>response := \<lparr>length_buf = unat cl, data = memcpy Map.empty 0 (concat ps)\<rparr>,
       offset := length (concat ps)\<rparr>"
  using assms
  by (simp add: run_callbacks_bodies request_parse_header_complete_def char_buffer_allocate_def)

lemma recv_loop_skip:
  assumes "\<forall>s \<in> set pre. 0 < num_received s \<and> num_received s \<le> parsed s"
    and "list_all (quiet alloc_ok) (concat (map callbacks pre))"
    and "status r = IOTA_REQUEST_STATUS_OK"
  shows "recv_loop alloc_ok r (pre @ rest) =
         recv_loop alloc_ok (run_callbacks alloc_ok (concat (map callbacks pre)) r) rest"
  using assms
proof (induction pre arbitrary: r)
  case Nil
  then show ?case by simp
next
  case (Cons s pre)
  let ?r' = "run_callbacks alloc_ok (callbacks s) r"
  from Cons.prems have s: "0 < num_received s" "\<not> parsed s < num_received s"
    and qs: "list_all (quiet alloc_ok) (callbacks s)"
    and qpre: "list_all (quiet alloc_ok) (concat (map callbacks pre))"
    and pre: "\<forall>s \<in> set pre. 0 < num_received s \<and> num_received s \<le> parsed s"
    by auto
  have st: "status ?r' = IOTA_REQUEST_STATUS_OK"
    using run_callbacks_quiet_status [OF qs] Cons.prems(3) by simp
  have "recv_loop alloc_ok r ((s # pre) @ rest) = recv_loop alloc_ok ?r' (pre @ rest)"
    using s st by (simp add: Let_def)
  also have "\<dots> = recv_loop alloc_ok (run_callbacks alloc_ok (concat (map callbacks pre)) ?r') rest"
    by (rule Cons.IH [OF pre qpre st])
  also have "run_callbacks alloc_ok (concat (map callbacks pre)) ?r'
             = run_callbacks alloc_ok (concat (map callbacks (s # pre))) r"
    by (simp add: run_callbacks_append [OF qs])
  finally show ?case .
qed

lemma quiet_headers_bodies:
  "cl \<noteq> UINT64_MAX \<Longrightarrow> alloc_ok (unat cl) \<Longrightarrow>
   list_all (quiet alloc_ok) (Headers_complete cl # map Body ps)"
  by (simp add: list_all_iff)

lemma buffer_bytes_memcpy:
  "buffer_bytes \<lparr>length_buf = length xs, data = memcpy Map.empty 0 xs\<rparr> = map Some xs"
  by (rule nth_equalityI) (simp_all add: buffer_bytes_def memcpy_apply)

lemma sprintf_header_overrun:
  "(sprintf_header hs len header_size \<noteq> None) =
     (header_size \<le> length (header_template (path hs) (host hs) (api_version hs)
                              (content_type hs) (accept hs) len))"
  by (auto simp: sprintf_header_def memcpy_apply)

lemma http_request_header_sent:
  "length (header_template (path hs) (host hs) (api_version hs)
             (content_type hs) (accept hs) len) < header_size \<Longrightarrow>
   http_request_header (n # ns) hs len =
     Some (n, take (nat n) (header_template (path hs) (host hs) (api_version hs)
                              (content_type hs) (accept hs) len), ns)"
  using sprintf_header_overrun [of hs len]
  by (simp add: http_request_header_def mbedtls_socket_send_def Let_def)

lemma http_request_header_overrun:
  "header_size \<le> length (header_template (path hs) (host hs) (api_version hs)
                           (content_type hs) (accept hs) len) \<Longrightarrow>
   http_request_header sd hs len = None"
  using sprintf_header_overrun [of hs len]
  by (simp add: http_request_header_def Let_def)

lemma http_request_data_all:
  "\<forall>n \<in> set ns. 0 \<le> n \<Longrightarrow> sum_list ns = int dl \<Longrightarrow> ptr + dl = length dat \<Longrightarrow>
   dl < 2 ^ 64 \<Longrightarrow> http_request_data ns dat ptr dl = Some (RC_OK, drop ptr dat)"
proof (induction ns arbitrary: ptr dl)
  case Nil
  then show ?case by simp
next
  case (Cons n ns)
  show ?case
  proof (cases "dl > 0")
    case False
    with Cons.prems show ?thesis by simp
  next
    case True
    from Cons.prems have n0: "0 \<le> n" and rest: "\<forall>n \<in> set ns. 0 \<le> n" by simp_all
    from rest have "0 \<le> sum_list ns" by (simp add: sum_list_nonneg)
    with Cons.prems(2) have nle: "n \<le> int dl" by simp
    let ?dl' = "nat ((int dl - n) mod 2 ^ 64)"
    have "0 \<le> int dl - n" "int dl - n < 2 ^ 64" using n0 nle Cons.prems(4) by simp_all
    then have dl': "?dl' = dl - nat n" by (simp add: nat_diff_distrib' n0)
    have "sum_list ns = int (dl - nat n)" using Cons.prems(2) n0 nle by simp
    moreover have "(ptr + nat n) + (dl - nat n) = length dat" using Cons.prems(3) n0 nle by simp
    moreover have "dl - nat n < 2 ^ 64" using Cons.prems(4) by simp
    ultimately have IH: "http_request_data ns dat (ptr + nat n) (dl - nat n)
                         = Some (RC_OK, drop (ptr + nat n) dat)"
      using Cons.IH [OF rest] by blast
    have "take (nat n) (take dl (drop ptr dat)) @ drop (ptr + nat n) dat = drop ptr dat"
    proof -
      have a: "take dl (drop ptr dat) = drop ptr dat" using Cons.prems(3) by simp
      have b: "drop (ptr + nat n) dat = drop (nat n) (drop ptr dat)" by (simp add: add.commute)
      show ?thesis unfolding a b by (rule append_take_drop_id)
    qed
    with True n0 IH dl' show ?thesis by (simp add: mbedtls_socket_send_def)
  qed
qed

lemma cclient_socket_send_request:
  assumes "0 \<le> sockfd c"
    and "length body = dl"
    and "sends c = int (length (header_template (path (http service)) (host (http service))
            (api_version (http service)) (content_type (http service)) (accept (http service))
            dl)) # ns"
    and "\<forall>n \<in> set ns. 0 \<le> n" and "sum_list ns = int dl"
    and "dl < 2 ^ 64"
    and "length (header_template (path (http service)) (host (http service))
            (api_version (http service)) (content_type (http service)) (accept (http service))
            dl) < header_size"
  shows "cclient_socket_send alloc_ok c service body resp =
         map_option (\<lambda>(ret, resp'). (ret, resp',
             header_template (path (http service)) (host (http service))
               (api_version (http service)) (content_type (http service)) (accept (http service))
               dl @ body))
           (http_response_read alloc_ok (recvs c) resp)"
proof -
  have "http_request_data ns body 0 dl = Some (RC_OK, body)"
    using http_request_data_all [OF assms(4,5), of 0 body] assms(2,6) by simp
  then show ?thesis
    using assms(1-3) http_request_header_sent [OF assms(7)]
    by (simp add: cclient_socket_send_def Let_def split: option.splits)
qed

lemma example_header_template:
  "header_template (path (http example_service)) (host (http example_service))
     (api_version (http example_service)) (content_type (http example_service))
     (accept (http example_service)) 11 = example_header"
  by (simp add: header_template_def example_service_def example_header_def fmt_d_def
        digit_char_def)

lemma example_header_length: "int (length example_header) = 143"
  by (simp add: example_header_def CRLF_def)

lemma example_header_fits: "length example_header < header_size"
  using example_header_length by (simp add: header_size_def)

lemma example_request:
  assumes "sockfd c = 3" and "sends c = [143, 11]"
  shows "cclient_socket_send alloc_ok c example_service ''hello world'' resp =
         map_option (\<lambda>(ret, resp'). (ret, resp', example_header @ ''hello world''))
           (http_response_read alloc_ok (recvs c) resp)"
proof -
  have "length ''hello world'' = 11" by simp
  from cclient_socket_send_request [OF _ this, of c example_service "[11]" alloc_ok resp]
  show ?thesis
    using assms example_header_fits
    by (simp only: example_header_template example_header_length) simp
qed

lemma css_parse_error:
  "cclient_socket_send alloc_ok conn_parse_error example_service ''hello world'' resp
   = Some (RC_UTILS_SOCKET_RECV, resp, example_header @ ''hello world'')"
  by (subst example_request) (simp_all add: conn_parse_error_def http_response_read_def)

lemma read_complete:
  "http_response_read (\<lambda>_. True) (recvs conn_complete) resp = Some (RC_OK, hello_buffer)"
  by (simp add: conn_complete_def http_response_read_def hello_buffer_def
       request_parse_header_complete_def char_buffer_allocate_def UINT64_MAX_def
       request_parse_data_def request_parse_message_complete_def)

lemma css_complete:
  "cclient_socket_send (\<lambda>_. True) conn_complete example_service ''hello world'' resp
   = Some (RC_OK, hello_buffer, example_header @ ''hello world'')"
  by (subst example_request) (simp_all add: read_complete, simp_all add: conn_complete_def)

lemma query_loop_done:
  "ret \<noteq> RC_UTILS_SOCKET_RECV \<Longrightarrow>
   query_loop c alloc_ok service obj cs ret resp retry = Some (ret, resp, cs)"
  by (cases cs) simp_all

lemma query_loop_retries:
  "retry + m \<le> c \<Longrightarrow>
   query_loop c (\<lambda>_. True) example_service ''hello world''
     (replicate m conn_parse_error @ [conn_complete]) RC_UTILS_SOCKET_RECV resp retry
   = Some (RC_OK, hello_buffer, [])"
proof (induction m arbitrary: retry)
  case 0
  then show ?case by (simp add: css_complete)
next
  case (Suc m)
  from Suc.prems have "Suc retry + m \<le> c" and "\<not> c < retry" by simp_all
  with Suc.IH [of "Suc retry"] show ?case by (simp add: css_parse_error)
qed

lemma query_loop_gives_up:
  "retry \<le> Suc c \<Longrightarrow>
   query_loop c alloc_ok example_service ''hello world''
     (replicate (Suc c - retry) conn_parse_error @ rest) RC_UTILS_SOCKET_RECV resp retry
   = Some (RC_UTILS_SOCKET_RECV, resp, rest)"
proof (induction "Suc c - retry" arbitrary: retry)
  case 0
  then have "retry = Suc c" by simp
  then show ?case by (cases rest) simp_all
next
  case (Suc k)
  then have le: "retry \<le> c" and k: "k = Suc c - Suc retry" and r: "Suc c - retry = Suc (c - retry)"
    by simp_all
  have "Suc retry \<le> Suc c" using le by simp
  from Suc.hyps(1) [OF k this] le r show ?case
    by (simp add: css_parse_error)
qed

lemma digit_char_value: "d < 10 \<Longrightarrow> of_char (digit_char d) = (48 + d :: nat)"
proof -
  assume "d < 10"
  then have "d \<in> {0, 1, 2, 3, 4, 5, 6, 7, 8, 9}" by auto
  then show ?thesis by (auto simp: digit_char_def)
qed

lemma parse_lu_fmt_lu: "parse_lu (fmt_lu n) = n"
proof (induction n rule: fmt_lu.induct)
  case (1 n)
  show ?case
  proof (cases "n < 10")
    case True
    then show ?thesis by (simp add: parse_lu_def digit_char_value)
  next
    case False
    have "n mod 10 < 10" by simp
    then have d: "of_char (digit_char (n mod 10)) = (48 + n mod 10 :: nat)" by (rule digit_char_value)
    have "fmt_lu n = fmt_lu (n div 10) @ [digit_char (n mod 10)]"
      using False by (subst fmt_lu.simps) simp
    then have "parse_lu (fmt_lu n) = 10 * parse_lu (fmt_lu (n div 10)) + n mod 10"
      by (simp add: parse_lu_def d)
    with "1.IH" [OF False] show ?thesis by simp
  qed
qed

lemma query_first_attempt:
  assumes "cclient_socket_send alloc_ok c1 service body resp = Some (ret1, resp1, out1)"
  shows "iota_service_query c alloc_ok (c1 # cs) (Some service) (Some body) (Some resp)
         = map_option (\<lambda>(ret', resp'', cs''). (ret', Some resp'', cs''))
             (query_loop c alloc_ok service body cs ret1 resp1 0)"
  using assms by (simp add: iota_service_query_def)

lemma read_closed_early:
  "http_response_read (\<lambda>_. True) (recvs conn_closed_early) resp
   = Some (RC_CCLIENT_HTTP, \<lparr>length_buf = 5, data = memcpy Map.empty 0 ''he''\<rparr>)"
  by (simp add: conn_closed_early_def http_response_read_def
       request_parse_header_complete_def char_buffer_allocate_def UINT64_MAX_def
       request_parse_data_def)

lemma css_closed_early:
  "cclient_socket_send (\<lambda>_. True) conn_closed_early example_service ''hello world'' resp
   = Some (RC_CCLIENT_HTTP, \<lparr>length_buf = 5, data = memcpy Map.empty 0 ''he''\<rparr>,
           example_header @ ''hello world'')"
  by (subst example_request) (simp_all add: read_closed_early, simp_all add: conn_closed_early_def)

lemma read_partial_then_parse_error:
  "http_response_read (\<lambda>_. True) (recvs conn_partial_then_parse_error) resp
   = Some (RC_UTILS_SOCKET_RECV, \<lparr>length_buf = 5, data = memcpy Map.empty 0 ''he''\<rparr>)"
  by (simp add: conn_partial_then_parse_error_def http_response_read_def
       request_parse_header_complete_def char_buffer_allocate_def UINT64_MAX_def
       request_parse_data_def)

lemma css_partial_then_parse_error:
  "cclient_socket_send (\<lambda>_. True) conn_partial_then_parse_error example_service ''hello world'' resp
   = Some (RC_UTILS_SOCKET_RECV, \<lparr>length_buf = 5, data = memcpy Map.empty 0 ''he''\<rparr>,
           example_header @ ''hello world'')"
  by (subst example_request)
     (simp_all add: read_partial_then_parse_error, simp_all add: conn_partial_then_parse_error_def)

lemma css_closed_at_once:
  "cclient_socket_send alloc_ok conn_closed_at_once example_service ''hello world'' resp
   = Some (RC_CCLIENT_HTTP, resp, example_header @ ''hello world'')"
  by (subst example_request) (simp_all add: conn_closed_at_once_def http_response_read_def)

lemma query_loop_attempts:
  "query_loop c alloc_ok service body cs ret resp retry = Some (ret', resp', rest) \<Longrightarrow>
   \<exists>n rs. n \<le> length cs \<and> rest = drop n cs
     \<and> attempts_in_turn alloc_ok service body (take n cs) resp = Some rs
     \<and> length rs = n
     \<and> last ((ret, resp) # rs) = (ret', resp')
     \<and> (\<forall>x \<in> set (butlast ((ret, resp) # rs)). fst x = RC_UTILS_SOCKET_RECV)"
proof (induction cs arbitrary: ret resp retry)
  case Nil
  then have "ret' = ret" "resp' = resp" "rest = []" by (auto split: if_splits)
  then show ?case by simp
next
  case (Cons a cs)
  show ?case
  proof (cases "ret = RC_UTILS_SOCKET_RECV \<and> \<not> c < retry")
    case False
    with Cons.prems have "ret' = ret" "resp' = resp" "rest = a # cs" by (auto split: if_splits)
    then have "0 \<le> length (a # cs) \<and> rest = drop 0 (a # cs)
       \<and> attempts_in_turn alloc_ok service body (take 0 (a # cs)) resp = Some []
       \<and> length ([] :: (retcode_t \<times> char_buffer_t) list) = 0
       \<and> last ((ret, resp) # []) = (ret', resp')
       \<and> (\<forall>x \<in> set (butlast ((ret, resp) # [])). fst x = RC_UTILS_SOCKET_RECV)"
      by simp
    then show ?thesis by blast
  next
    case True
    with Cons.prems obtain ret1 resp1 out1 where
      att: "cclient_socket_send alloc_ok a service body resp = Some (ret1, resp1, out1)"
      and go: "query_loop c alloc_ok service body cs ret1 resp1 (retry + 1) = Some (ret', resp', rest)"
      by (auto split: option.splits)
    from Cons.IH [OF go] obtain n rs where
      n: "n \<le> length cs" "rest = drop n cs"
      and tr: "attempts_in_turn alloc_ok service body (take n cs) resp1 = Some rs"
      and len: "length rs = n"
      and la: "last ((ret1, resp1) # rs) = (ret', resp')"
      and al: "\<forall>x \<in> set (butlast ((ret1, resp1) # rs)). fst x = RC_UTILS_SOCKET_RECV"
      by blast
    have "Suc n \<le> length (a # cs) \<and> rest = drop (Suc n) (a # cs)
       \<and> attempts_in_turn alloc_ok service body (take (Suc n) (a # cs)) resp
           = Some ((ret1, resp1) # rs)
       \<and> length ((ret1, resp1) # rs) = Suc n
       \<and> last ((ret, resp) # (ret1, resp1) # rs) = (ret', resp')
       \<and> (\<forall>x \<in> set (butlast ((ret, resp) # (ret1, resp1) # rs)). fst x = RC_UTILS_SOCKET_RECV)"
      using n tr len la al att True by simp
    then show ?thesis by blast
  qed
qed

lemma query_attempts:
  assumes "iota_service_query c alloc_ok cs (Some service) (Some body) (Some resp)
           = Some (ret, r, rest)"
  shows "\<exists>n rs resp'. 0 < n \<and> n \<le> length cs \<and> rest = drop n cs
     \<and> attempts_in_turn alloc_ok service body (take n cs) resp = Some rs
     \<and> length rs = n
     \<and> last rs = (ret, resp') \<and> r = Some resp'
     \<and> (\<forall>x \<in> set (butlast rs). fst x = RC_UTILS_SOCKET_RECV)"
proof -
  from assms obtain c1 cs' ret1 resp1 out1 resp' where
    cs: "cs = c1 # cs'"
    and att: "cclient_socket_send alloc_ok c1 service body resp = Some (ret1, resp1, out1)"
    and go: "query_loop c alloc_ok service body cs' ret1 resp1 0 = Some (ret, resp', rest)"
    and r: "r = Some resp'"
    by (auto simp: iota_service_query_def split: list.splits option.splits)
  from query_loop_attempts [OF go] obtain n rs where
    n: "n \<le> length cs'" "rest = drop n cs'"
    and tr: "attempts_in_turn alloc_ok service body (take n cs') resp1 = Some rs"
    and len: "length rs = n"
    and la: "last ((ret1, resp1) # rs) = (ret, resp')"
    and al: "\<forall>x \<in> set (butlast ((ret1, resp1) # rs)). fst x = RC_UTILS_SOCKET_RECV"
    by blast
  have "0 < Suc n \<and> Suc n \<le> length cs \<and> rest = drop (Suc n) cs
     \<and> attempts_in_turn alloc_ok service body (take (Suc n) cs) resp = Some ((ret1, resp1) # rs)
     \<and> length ((ret1, resp1) # rs) = Suc n
     \<and> last ((ret1, resp1) # rs) = (ret, resp') \<and> r = Some resp'
     \<and> (\<forall>x \<in> set (butlast ((ret1, resp1) # rs)). fst x = RC_UTILS_SOCKET_RECV)"
    using cs att n tr len la al r by simp
  then show ?thesis by blast
qed

lemma headers_text:
  "header_template p h v ct ac n =
     ''POST '' @ p @ '' HTTP/1.1'' @ CRLF @ ''Host: '' @ h @ CRLF @
     ''X-IOTA-API-Version: '' @ fmt_d v @ CRLF @ ''Content-Type: '' @ ct @ CRLF @
     ''Accept: '' @ ac @ CRLF @ ''Content-Length: '' @ fmt_lu n @ CRLF @ CRLF"
  by (simp only: header_template_def)

lemma sprintf_header_dom:
  "dom (sprintf_header hs n) =
     {..< max header_size (Suc (length (header_template (path hs) (host hs) (api_version hs)
                                          (content_type hs) (accept hs) n)))}"
proof -
  let ?t = "header_template (path hs) (host hs) (api_version hs) (content_type hs) (accept hs) n"
  have "dom (\<lambda>i. if i < header_size then Some (CHR 0x00) else None) = {..< header_size}"
    by (auto simp: dom_def split: if_splits)
  then have "dom (sprintf_header hs n) = {..< header_size} \<union> {0 ..< Suc (length ?t)}"
    by (simp add: sprintf_header_def memcpy_dom)
  also have "\<dots> = {..< max header_size (Suc (length ?t))}" by auto
  finally show ?thesis .
qed

text \<open>
  The equation of \<open>fmt_lu\<close> rewrites any application of it; from here on it is used
  only where it is named.
\<close>

declare fmt_lu.simps [simp del]

lemma long_header_length:
  "length (header_template (path (http long_path_service)) (host (http long_path_service))
     (api_version (http long_path_service)) (content_type (http long_path_service))
     (accept (http long_path_service)) 11) = 1163"
  by (simp add: header_template_def long_path_service_def fmt_d_def digit_char_def CRLF_def
        fmt_lu.simps)

section \<open>The claims\<close>

subsection \<open>C1: body data and the capacity of the response buffer\<close>

text \<open>
  C1 says that a body-data event whose bytes would exceed the capacity fixed from the
  declared content length is rejected with an overflow failure and that no byte is ever
  written at or past capacity. The code has no such check. With a declared length of 1
  and a body event of 2 bytes, \<open>request_parse_data\<close> returns 0 with the status still OK
  and has stored \<open>b\<close> at offset 1, and the whole read returns \<open>RC_OK\<close>.
\<close>

theorem C1_counterexample:
  "request_parse_data
      \<lparr>response = \<lparr>length_buf = 1, data = Map.empty\<rparr>, offset = 0, status = IOTA_REQUEST_STATUS_OK\<rparr>
      ''ab''
    = (0, \<lparr>response = \<lparr>length_buf = 1, data = [0 \<mapsto> CHR ''a'', 1 \<mapsto> CHR ''b'']\<rparr>, offset = 2,
            status = IOTA_REQUEST_STATUS_OK\<rparr>)
   \<and> http_response_read (\<lambda>_. True) (recvs conn_overflow) empty_buffer
    = Some (RC_OK, \<lparr>length_buf = 1, data = [0 \<mapsto> CHR ''a'', 1 \<mapsto> CHR ''b'']\<rparr>)"
  by (simp add: request_parse_data_def conn_overflow_def http_response_read_def
        request_parse_header_complete_def char_buffer_allocate_def UINT64_MAX_def
        request_parse_message_complete_def)

text \<open>
  C1, as amended: every body-data event is accepted in full and without a capacity check.
  \<open>request_parse_data\<close> returns 0, leaves status and capacity as they are, advances the
  offset by the number of incoming bytes and stores exactly these bytes at the offsets
  from the old offset on; so a byte lands at or past capacity exactly when the old offset
  plus the incoming length exceeds the capacity. There is no overflow outcome and no
  partial accept.
\<close>

theorem C1_body_write_unchecked:
  "fst (request_parse_data r at) = 0
   \<and> status (snd (request_parse_data r at)) = status r
   \<and> offset (snd (request_parse_data r at)) = offset r + length at
   \<and> length_buf (response (snd (request_parse_data r at))) = length_buf (response r)
   \<and> data (response (snd (request_parse_data r at)))
       = memcpy (data (response r)) (offset r) at
   \<and> dom (data (response (snd (request_parse_data r at))))
       = dom (data (response r)) \<union> {offset r ..< offset r + length at}"
  by (simp add: request_parse_data_def memcpy_dom)

subsection \<open>C2: which outcomes are retried\<close>

text \<open>
  C2 says that an attempt is retried exactly when it ended in a receive failure or a
  premature close, and that parse errors and an undeclared length are returned at once.
  The code does the opposite. An attempt whose stream closes after 2 of 5 declared body
  bytes returns \<open>RC_CCLIENT_HTTP\<close>, and the query returns it after this one attempt
  although a working connection is available; an attempt on which the parser stops short
  returns \<open>RC_UTILS_SOCKET_RECV\<close> and is retried, and the query returns \<open>RC_OK\<close>
  from the second attempt.
\<close>

theorem C2_counterexample:
  "iota_service_query 5 (\<lambda>_. True) [conn_closed_early, conn_complete]
     (Some example_service) (Some ''hello world'') (Some empty_buffer)
   = Some (RC_CCLIENT_HTTP, Some \<lparr>length_buf = 5, data = memcpy Map.empty 0 ''he''\<rparr>, [conn_complete])
   \<and> iota_service_query 5 (\<lambda>_. True) [conn_parse_error, conn_complete]
     (Some example_service) (Some ''hello world'') (Some empty_buffer)
   = Some (RC_OK, Some hello_buffer, [])"
  by (simp add: iota_service_query_def css_closed_early css_parse_error css_complete)

text \<open>
  C2, as amended: only the result \<open>RC_UTILS_SOCKET_RECV\<close> is ever followed by another
  attempt. At every point of the retry loop any other result ends the query: it is
  returned at once, unchanged, with the buffer as the attempt left it and no further
  attempt. A result of \<open>RC_UTILS_SOCKET_RECV\<close> is followed by a further attempt while
  fewer retries than the ceiling have been made, and by none once the retries made exceed
  the ceiling; then \<open>RC_UTILS_SOCKET_RECV\<close> itself is returned. \<open>http_response_read\<close>
  returns \<open>RC_UTILS_SOCKET_RECV\<close> when the parser reports fewer bytes parsed than
  received or a callback has set the error status (which the header-complete callback
  does for an undeclared length), and it returns \<open>RC_CCLIENT_HTTP\<close>, which is not
  retried, when a receive returns zero or a negative value.
\<close>

theorem C2_retry_iff_socket_recv:
  "(cclient_socket_send alloc_ok c1 service body resp = Some (ret1, resp1, out1) \<longrightarrow>
      iota_service_query c alloc_ok (c1 # cs) (Some service) (Some body) (Some resp)
      = map_option (\<lambda>(ret', resp'', cs''). (ret', Some resp'', cs''))
          (query_loop c alloc_ok service body cs ret1 resp1 0))
   \<and> (cclient_socket_send alloc_ok c1 service body resp = Some (ret1, resp1, out1) \<and>
       ret1 \<noteq> RC_UTILS_SOCKET_RECV \<longrightarrow>
      iota_service_query c alloc_ok (c1 # cs) (Some service) (Some body) (Some resp)
      = Some (ret1, Some resp1, cs))
   \<and> (ret \<noteq> RC_UTILS_SOCKET_RECV \<longrightarrow>
      query_loop c alloc_ok service body cs ret resp retry = Some (ret, resp, cs))
   \<and> (retry < c \<and>
       cclient_socket_send alloc_ok c2 service body resp = Some (ret2, resp2, out2) \<longrightarrow>
      query_loop c alloc_ok service body (c2 # cs) RC_UTILS_SOCKET_RECV resp retry
      = query_loop c alloc_ok service body cs ret2 resp2 (retry + 1))
   \<and> (c < retry \<longrightarrow>
      query_loop c alloc_ok service body cs RC_UTILS_SOCKET_RECV resp retry
      = Some (RC_UTILS_SOCKET_RECV, resp, cs))
   \<and> (num_received s \<le> 0 \<longrightarrow>
        recv_loop alloc_ok r (s # ss) = Some (RC_CCLIENT_HTTP, response r))
   \<and> (0 < num_received s \<and>
        (parsed s < num_received s
         \<or> status (run_callbacks alloc_ok (callbacks s) r) = IOTA_REQUEST_STATUS_ERROR) \<longrightarrow>
        recv_loop alloc_ok r (s # ss)
        = Some (RC_UTILS_SOCKET_RECV, response (run_callbacks alloc_ok (callbacks s) r)))
   \<and> status (snd (request_parse_header_complete alloc_ok UINT64_MAX r)) = IOTA_REQUEST_STATUS_ERROR"
proof (intro conjI impI)
  assume "cclient_socket_send alloc_ok c1 service body resp = Some (ret1, resp1, out1)"
  then show "iota_service_query c alloc_ok (c1 # cs) (Some service) (Some body) (Some resp)
      = map_option (\<lambda>(ret', resp'', cs''). (ret', Some resp'', cs''))
          (query_loop c alloc_ok service body cs ret1 resp1 0)"
    by (rule query_first_attempt)
next
  assume "cclient_socket_send alloc_ok c1 service body resp = Some (ret1, resp1, out1) \<and>
       ret1 \<noteq> RC_UTILS_SOCKET_RECV"
  then show "iota_service_query c alloc_ok (c1 # cs) (Some service) (Some body) (Some resp)
      = Some (ret1, Some resp1, cs)"
    by (simp add: query_first_attempt [of alloc_ok c1 service body resp ret1 resp1 out1]
          query_loop_done)
next
  assume "ret \<noteq> RC_UTILS_SOCKET_RECV"
  then show "query_loop c alloc_ok service body cs ret resp retry = Some (ret, resp, cs)"
    by (rule query_loop_done)
next
  assume "retry < c \<and>
       cclient_socket_send alloc_ok c2 service body resp = Some (ret2, resp2, out2)"
  then show "query_loop c alloc_ok service body (c2 # cs) RC_UTILS_SOCKET_RECV resp retry
      = query_loop c alloc_ok service body cs ret2 resp2 (retry + 1)"
    by simp
next
  assume "c < retry"
  then show "query_loop c alloc_ok service body cs RC_UTILS_SOCKET_RECV resp retry
      = Some (RC_UTILS_SOCKET_RECV, resp, cs)"
    by (cases cs) simp_all
next
  assume "num_received s \<le> 0"
  then show "recv_loop alloc_ok r (s # ss) = Some (RC_CCLIENT_HTTP, response r)" by simp
next
  assume "0 < num_received s \<and>
        (parsed s < num_received s
         \<or> status (run_callbacks alloc_ok (callbacks s) r) = IOTA_REQUEST_STATUS_ERROR)"
  then show "recv_loop alloc_ok r (s # ss)
        = Some (RC_UTILS_SOCKET_RECV, response (run_callbacks alloc_ok (callbacks s) r))"
    by (auto simp: Let_def)
next
  show "status (snd (request_parse_header_complete alloc_ok UINT64_MAX r)) = IOTA_REQUEST_STATUS_ERROR"
    by (simp add: request_parse_header_complete_def)
qed

theorem C2_witness:
  "iota_service_query 5 (\<lambda>_. True) [conn_closed_early, conn_complete]
     (Some example_service) (Some ''hello world'') (Some empty_buffer)
   = Some (RC_CCLIENT_HTTP, Some \<lparr>length_buf = 5, data = memcpy Map.empty 0 ''he''\<rparr>, [conn_complete])
   \<and> query_loop 5 (\<lambda>_. True) example_service ''hello world'' [conn_complete] RC_CCLIENT_HTTP
       empty_buffer 3 = Some (RC_CCLIENT_HTTP, empty_buffer, [conn_complete])
   \<and> query_loop 5 (\<lambda>_. True) example_service ''hello world'' [conn_parse_error, conn_complete]
       RC_UTILS_SOCKET_RECV empty_buffer 3
     = query_loop 5 (\<lambda>_. True) example_service ''hello world'' [conn_complete]
         RC_UTILS_SOCKET_RECV empty_buffer 4
   \<and> query_loop 5 (\<lambda>_. True) example_service ''hello world'' [conn_complete]
       RC_UTILS_SOCKET_RECV empty_buffer 7 = Some (RC_UTILS_SOCKET_RECV, empty_buffer, [conn_complete])
   \<and> recv_loop (\<lambda>_. True) \<lparr>response = empty_buffer, offset = 0, status = IOTA_REQUEST_STATUS_OK\<rparr>
       [Recv 0 [] 0] = Some (RC_CCLIENT_HTTP, empty_buffer)
   \<and> recv_loop (\<lambda>_. True) \<lparr>response = empty_buffer, offset = 0, status = IOTA_REQUEST_STATUS_OK\<rparr>
       [Recv 60 [Headers_complete UINT64_MAX] 60] = Some (RC_UTILS_SOCKET_RECV, empty_buffer)"
proof -
  let ?r0 = "\<lparr>response = empty_buffer, offset = 0, status = IOTA_REQUEST_STATUS_OK\<rparr>"
  let ?he = "\<lparr>length_buf = 5, data = memcpy Map.empty 0 ''he''\<rparr>"
  note a = C2_retry_iff_socket_recv [of "\<lambda>_. True" conn_closed_early example_service
      "''hello world''" empty_buffer RC_CCLIENT_HTTP ?he "example_header @ ''hello world''"
      5 "[conn_complete]" RC_CCLIENT_HTTP 3 conn_parse_error RC_UTILS_SOCKET_RECV empty_buffer
      "example_header @ ''hello world''" "Recv 0 [] 0" ?r0 "[]"]
  note b = C2_retry_iff_socket_recv [of "\<lambda>_. True" conn_closed_early example_service
      "''hello world''" empty_buffer RC_CCLIENT_HTTP ?he "example_header @ ''hello world''"
      5 "[conn_complete]" RC_CCLIENT_HTTP 7 conn_parse_error RC_UTILS_SOCKET_RECV empty_buffer
      "example_header @ ''hello world''" "Recv 60 [Headers_complete UINT64_MAX] 60" ?r0 "[]"]
  have css1: "cclient_socket_send (\<lambda>_. True) conn_closed_early example_service ''hello world''
                empty_buffer = Some (RC_CCLIENT_HTTP, ?he, example_header @ ''hello world'')"
    by (rule css_closed_early)
  have css2: "cclient_socket_send (\<lambda>_. True) conn_parse_error example_service ''hello world''
                empty_buffer = Some (RC_UTILS_SOCKET_RECV, empty_buffer, example_header @ ''hello world'')"
    by (rule css_parse_error)
  have st: "status (run_callbacks (\<lambda>_. True) (callbacks (Recv 60 [Headers_complete UINT64_MAX] 60)) ?r0)
            = IOTA_REQUEST_STATUS_ERROR"
    by (simp add: request_parse_header_complete_def)
  have rs: "response (run_callbacks (\<lambda>_. True) (callbacks (Recv 60 [Headers_complete UINT64_MAX] 60)) ?r0)
            = empty_buffer"
    by (simp add: request_parse_header_complete_def)
  from a css1 have 1: "iota_service_query 5 (\<lambda>_. True) [conn_closed_early, conn_complete]
     (Some example_service) (Some ''hello world'') (Some empty_buffer)
   = Some (RC_CCLIENT_HTTP, Some ?he, [conn_complete])" by blast
  from a have 2: "query_loop 5 (\<lambda>_. True) example_service ''hello world'' [conn_complete]
       RC_CCLIENT_HTTP empty_buffer 3 = Some (RC_CCLIENT_HTTP, empty_buffer, [conn_complete])"
    by simp
  from a css2 have 3: "query_loop 5 (\<lambda>_. True) example_service ''hello world''
       [conn_parse_error, conn_complete] RC_UTILS_SOCKET_RECV empty_buffer 3
     = query_loop 5 (\<lambda>_. True) example_service ''hello world'' [conn_complete]
         RC_UTILS_SOCKET_RECV empty_buffer (3 + 1)" by simp
  from b have 4: "query_loop 5 (\<lambda>_. True) example_service ''hello world'' [conn_complete]
       RC_UTILS_SOCKET_RECV empty_buffer 7 = Some (RC_UTILS_SOCKET_RECV, empty_buffer, [conn_complete])"
    by simp
  from a have 5: "recv_loop (\<lambda>_. True) ?r0 [Recv 0 [] 0] = Some (RC_CCLIENT_HTTP, empty_buffer)"
    by simp
  from b st rs have 6: "recv_loop (\<lambda>_. True) ?r0 [Recv 60 [Headers_complete UINT64_MAX] 60]
       = Some (RC_UTILS_SOCKET_RECV, empty_buffer)"
    by simp
  from 1 2 3 4 5 6 show ?thesis by simp
qed

subsection \<open>C3: the response buffer on failure and across attempts\<close>

text \<open>
  C3 says that on a failure the caller never observes partially written body bytes and
  that every retry runs with a fresh response buffer. The buffer is the caller's own
  object and is written in place: after an attempt that ends with \<open>RC_CCLIENT_HTTP\<close>
  the caller's buffer has capacity 5 and holds \<open>he\<close>; and when an attempt that wrote
  \<open>he\<close> is retried and the stream of the retry ends before any header, the query
  returns the buffer with the bytes of the first attempt.
\<close>

theorem C3_counterexample:
  "iota_service_query 5 (\<lambda>_. True) [conn_closed_early]
     (Some example_service) (Some ''hello world'') (Some empty_buffer)
   = Some (RC_CCLIENT_HTTP, Some \<lparr>length_buf = 5, data = memcpy Map.empty 0 ''he''\<rparr>, [])
   \<and> buffer_bytes \<lparr>length_buf = 5, data = memcpy Map.empty 0 ''he''\<rparr>
     = [Some (CHR ''h''), Some (CHR ''e''), None, None, None]
   \<and> iota_service_query 5 (\<lambda>_. True) [conn_partial_then_parse_error, conn_closed_at_once]
     (Some example_service) (Some ''hello world'') (Some empty_buffer)
   = Some (RC_CCLIENT_HTTP, Some \<lparr>length_buf = 5, data = memcpy Map.empty 0 ''he''\<rparr>, [])"
proof -
  have "[0 ..< 5] = [0, 1, 2, 3, 4]" by (simp add: upt_rec)
  then show ?thesis
    by (simp add: iota_service_query_def css_closed_early css_partial_then_parse_error
          css_closed_at_once buffer_bytes_def)
qed

text \<open>
  C3, as amended: the response buffer is the caller's object, written in place and not
  discarded on failure. After an attempt that fails because the parser stops short, the
  buffer has the declared capacity and holds exactly the body bytes reported up to then.
  Every attempt starts with a fresh response context (offset 0, status OK). Whenever a
  query returns, it has made one or more attempts on the first connections in order:
  the first attempt was handed the caller's buffer, every retry the buffer as the attempt
  before it left it, every attempt but the last ended in \<open>RC_UTILS_SOCKET_RECV\<close>, and
  the caller receives the return code and the buffer of the last attempt, whether that
  attempt succeeded or failed.
\<close>

theorem C3_buffer_written_in_place:
  "((\<forall>s \<in> set pre. 0 < num_received s \<and> num_received s \<le> parsed s) \<and>
    concat (map callbacks pre) @ callbacks s = Headers_complete cl # map Body ps \<and>
    cl \<noteq> UINT64_MAX \<and> alloc_ok (unat cl) \<and>
    0 < num_received s \<and> parsed s < num_received s \<longrightarrow>
      http_response_read alloc_ok (pre @ s # rest) resp
      = Some (RC_UTILS_SOCKET_RECV,
              \<lparr>length_buf = unat cl, data = memcpy Map.empty 0 (concat ps)\<rparr>))
   \<and> http_response_read alloc_ok steps resp
       = recv_loop alloc_ok \<lparr>response = resp, offset = 0, status = IOTA_REQUEST_STATUS_OK\<rparr> steps
   \<and> (iota_service_query c alloc_ok cs (Some service) (Some body) (Some resp)
         = Some (ret, r, unused) \<longrightarrow>
       (\<exists>n rs resp'. 0 < n \<and> n \<le> length cs \<and> unused = drop n cs
          \<and> attempts_in_turn alloc_ok service body (take n cs) resp = Some rs
          \<and> length rs = n
          \<and> last rs = (ret, resp') \<and> r = Some resp'
          \<and> (\<forall>x \<in> set (butlast rs). fst x = RC_UTILS_SOCKET_RECV)))"
proof (intro conjI impI)
  assume a: "(\<forall>s \<in> set pre. 0 < num_received s \<and> num_received s \<le> parsed s) \<and>
    concat (map callbacks pre) @ callbacks s = Headers_complete cl # map Body ps \<and>
    cl \<noteq> UINT64_MAX \<and> alloc_ok (unat cl) \<and>
    0 < num_received s \<and> parsed s < num_received s"
  let ?r0 = "\<lparr>response = resp, offset = 0, status = IOTA_REQUEST_STATUS_OK\<rparr>"
  let ?A = "concat (map callbacks pre)"
  from a have pre: "\<forall>s \<in> set pre. 0 < num_received s \<and> num_received s \<le> parsed s"
    and ev: "?A @ callbacks s = Headers_complete cl # map Body ps"
    and cl: "cl \<noteq> UINT64_MAX" "alloc_ok (unat cl)"
    and s: "0 < num_received s" "parsed s < num_received s"
    by simp_all
  have "list_all (quiet alloc_ok) (?A @ callbacks s)"
    using ev cl quiet_headers_bodies by simp
  then have q: "list_all (quiet alloc_ok) ?A" by simp
  have skip: "recv_loop alloc_ok ?r0 (pre @ s # rest)
        = recv_loop alloc_ok (run_callbacks alloc_ok ?A ?r0) (s # rest)"
    by (rule recv_loop_skip [OF pre q]) simp
  have "run_callbacks alloc_ok (callbacks s) (run_callbacks alloc_ok ?A ?r0)
        = run_callbacks alloc_ok (?A @ callbacks s) ?r0"
    by (simp add: run_callbacks_append [OF q])
  also have "\<dots> = ?r0\<lparr>response := \<lparr>length_buf = unat cl, data = memcpy Map.empty 0 (concat ps)\<rparr>,
              offset := length (concat ps)\<rparr>"
    using run_callbacks_headers_bodies [where cl = cl and alloc_ok = alloc_ok and ps = ps and r = ?r0]
      ev cl by simp
  finally show "http_response_read alloc_ok (pre @ s # rest) resp
      = Some (RC_UTILS_SOCKET_RECV, \<lparr>length_buf = unat cl, data = memcpy Map.empty 0 (concat ps)\<rparr>)"
    using skip s by (simp add: http_response_read_def Let_def)
next
  show "http_response_read alloc_ok steps resp
       = recv_loop alloc_ok \<lparr>response = resp, offset = 0, status = IOTA_REQUEST_STATUS_OK\<rparr> steps"
    by (simp add: http_response_read_def)
next
  assume "iota_service_query c alloc_ok cs (Some service) (Some body) (Some resp)
         = Some (ret, r, unused)"
  then show "\<exists>n rs resp'. 0 < n \<and> n \<le> length cs \<and> unused = drop n cs
          \<and> attempts_in_turn alloc_ok service body (take n cs) resp = Some rs
          \<and> length rs = n
          \<and> last rs = (ret, resp') \<and> r = Some resp'
          \<and> (\<forall>x \<in> set (butlast rs). fst x = RC_UTILS_SOCKET_RECV)"
    by (rule query_attempts)
qed

theorem C3_witness:
  "http_response_read (\<lambda>_. True) [Recv 60 [Headers_complete 5] 60, Recv 4 [Body ''he''] 2] empty_buffer
   = Some (RC_UTILS_SOCKET_RECV, \<lparr>length_buf = 5, data = memcpy Map.empty 0 ''he''\<rparr>)
   \<and> iota_service_query 5 (\<lambda>_. True)
       [conn_partial_then_parse_error, conn_closed_at_once, conn_complete]
       (Some example_service) (Some ''hello world'') (Some empty_buffer)
     = Some (RC_CCLIENT_HTTP, Some \<lparr>length_buf = 5, data = memcpy Map.empty 0 ''he''\<rparr>,
             [conn_complete])
   \<and> (\<exists>n rs resp'. 0 < n
        \<and> n \<le> length [conn_partial_then_parse_error, conn_closed_at_once, conn_complete]
        \<and> [conn_complete]
            = drop n [conn_partial_then_parse_error, conn_closed_at_once, conn_complete]
        \<and> attempts_in_turn (\<lambda>_. True) example_service ''hello world''
             (take n [conn_partial_then_parse_error, conn_closed_at_once, conn_complete])
             empty_buffer = Some rs
        \<and> length rs = n
        \<and> last rs = (RC_CCLIENT_HTTP, resp')
        \<and> Some \<lparr>length_buf = 5, data = memcpy Map.empty 0 ''he''\<rparr> = Some resp'
        \<and> (\<forall>x \<in> set (butlast rs). fst x = RC_UTILS_SOCKET_RECV))
   \<and> attempts_in_turn (\<lambda>_. True) example_service ''hello world''
       [conn_partial_then_parse_error, conn_closed_at_once] empty_buffer
     = Some [(RC_UTILS_SOCKET_RECV, \<lparr>length_buf = 5, data = memcpy Map.empty 0 ''he''\<rparr>),
             (RC_CCLIENT_HTTP, \<lparr>length_buf = 5, data = memcpy Map.empty 0 ''he''\<rparr>)]"
proof -
  let ?he = "\<lparr>length_buf = 5, data = memcpy Map.empty 0 ''he''\<rparr>"
  let ?cs = "[conn_partial_then_parse_error, conn_closed_at_once, conn_complete]"
  note t = C3_buffer_written_in_place [of "[Recv 60 [Headers_complete 5] 60]"
      "Recv 4 [Body ''he''] 2" 5 "[''he'']" "\<lambda>_. True" "[]" empty_buffer "[]" 5 ?cs
      example_service "''hello world''" RC_CCLIENT_HTTP "Some ?he" "[conn_complete]"]
  have q: "iota_service_query 5 (\<lambda>_. True) ?cs
       (Some example_service) (Some ''hello world'') (Some empty_buffer)
     = Some (RC_CCLIENT_HTTP, Some ?he, [conn_complete])"
    by (simp add: iota_service_query_def css_partial_then_parse_error css_closed_at_once)
  from t have 1: "http_response_read (\<lambda>_. True)
       [Recv 60 [Headers_complete 5] 60, Recv 4 [Body ''he''] 2] empty_buffer
     = Some (RC_UTILS_SOCKET_RECV, ?he)"
    by (simp add: UINT64_MAX_def)
  from t q have 3: "\<exists>n rs resp'. 0 < n \<and> n \<le> length ?cs \<and> [conn_complete] = drop n ?cs
        \<and> attempts_in_turn (\<lambda>_. True) example_service ''hello world'' (take n ?cs)
             empty_buffer = Some rs
        \<and> length rs = n
        \<and> last rs = (RC_CCLIENT_HTTP, resp')
        \<and> Some ?he = Some resp'
        \<and> (\<forall>x \<in> set (butlast rs). fst x = RC_UTILS_SOCKET_RECV)"
    by blast
  have 4: "attempts_in_turn (\<lambda>_. True) example_service ''hello world''
       [conn_partial_then_parse_error, conn_closed_at_once] empty_buffer
     = Some [(RC_UTILS_SOCKET_RECV, ?he), (RC_CCLIENT_HTTP, ?he)]"
    by (simp add: css_partial_then_parse_error css_closed_at_once)
  from 1 q 3 4 show ?thesis by blast
qed

subsection \<open>C4: the number of attempts\<close>

text \<open>
  C4 says that with a retry ceiling below the number \<open>k\<close> of consecutive retryable
  failures the query returns the failure after ceiling + 1 attempts. The loop tests
  \<open>retry > CCLIENT_SOCKET_RETRY\<close> before each further attempt, which allows one retry
  more than the ceiling: for every ceiling \<open>c\<close>, with \<open>k = c + 1\<close> failures followed by
  a connection that succeeds, the query makes \<open>c + 2\<close> attempts (it consumes all
  \<open>c + 2\<close> connections) and returns \<open>RC_OK\<close>; it gives up only after \<open>c + 2\<close>
  failed attempts, leaving the connections after them unused.
\<close>

theorem C4_one_retry_more_than_ceiling:
  "iota_service_query c (\<lambda>_. True) (replicate (Suc c) conn_parse_error @ [conn_complete])
     (Some example_service) (Some ''hello world'') (Some resp)
   = Some (RC_OK, Some hello_buffer, [])
   \<and> iota_service_query c (\<lambda>_. True) (replicate (c + 2) conn_parse_error @ rest)
     (Some example_service) (Some ''hello world'') (Some resp)
   = Some (RC_UTILS_SOCKET_RECV, Some resp, rest)"
  using query_loop_retries [of 0 c c resp] query_loop_gives_up [of 0 c "\<lambda>_. True" rest resp]
  by (simp add: iota_service_query_def css_parse_error)

subsection \<open>C5: the request on the wire\<close>

text \<open>
  C5 says that the header block contains a version line \<open>X-API-Version: <version>\<close>.
  The header that \<open>http_request_header\<close> sends for the example request has no such
  line; the field is named \<open>X-IOTA-API-Version\<close>.
\<close>

theorem C5_counterexample:
  "map_option (\<lambda>(n, out, rest). out) (http_request_header [143] (http example_service) 11)
     = Some example_header
   \<and> \<not> sublist ''X-API-Version: 1'' example_header
   \<and> sublist ''X-IOTA-API-Version: 1'' example_header"
proof -
  have a: "map_option (\<lambda>(n, out, rest). out) (http_request_header [143] (http example_service) 11)
     = Some example_header"
    using example_header_length
    by (simp add: http_request_header_sent example_header_template header_size_def)
  have b: "\<not> sublist ''X-API-Version: 1'' example_header"
    by (simp add: example_header_def CRLF_def sublist_Cons_right)
  have c: "sublist ''X-IOTA-API-Version: 1'' example_header"
    by (simp add: example_header_def CRLF_def sublist_Cons_right)
  from a b c show ?thesis by simp
qed

text \<open>
  C5, as amended: for every request whose header fits the header array, when the send of
  the header transmits it whole and the sends of the body transmit non-negative counts
  that add up to its length, the bytes on the wire are the header block
  \<open>POST <path> HTTP/1.1\<close>, \<open>Host\<close>, \<open>X-IOTA-API-Version\<close>, \<open>Content-Type\<close>,
  \<open>Accept\<close>, \<open>Content-Length\<close>, each line ended by CR LF, and an empty line,
  followed by the body unmodified; the \<open>Content-Length\<close> field is the decimal numeral
  of the body's length.
\<close>

theorem C5_request_on_the_wire:
  assumes "0 \<le> sockfd c"
    and "hdr = ''POST '' @ path (http service) @ '' HTTP/1.1'' @ CRLF @
               ''Host: '' @ host (http service) @ CRLF @
               ''X-IOTA-API-Version: '' @ fmt_d (api_version (http service)) @ CRLF @
               ''Content-Type: '' @ content_type (http service) @ CRLF @
               ''Accept: '' @ accept (http service) @ CRLF @
               ''Content-Length: '' @ fmt_lu (length body) @ CRLF @ CRLF"
    and "length hdr < header_size"
    and "sends c = int (length hdr) # ns"
    and "\<forall>n \<in> set ns. 0 \<le> n" and "sum_list ns = int (length body)"
    and "length body < 2 ^ 64"
    and "http_response_read alloc_ok (recvs c) resp = Some (ret, resp')"
  shows "cclient_socket_send alloc_ok c service body resp = Some (ret, resp', hdr @ body)
         \<and> parse_lu (fmt_lu (length body)) = length body"
proof -
  have h: "header_template (path (http service)) (host (http service))
             (api_version (http service)) (content_type (http service)) (accept (http service))
             (length body) = hdr"
    unfolding assms(2) by (rule headers_text)
  have "cclient_socket_send alloc_ok c service body resp =
         map_option (\<lambda>(ret, resp'). (ret, resp', hdr @ body))
           (http_response_read alloc_ok (recvs c) resp)"
    using cclient_socket_send_request [where c = c and body = body and dl = "length body"
        and service = service and ns = ns and alloc_ok = alloc_ok and resp = resp]
      assms(1,3-7) unfolding h by blast
  then show ?thesis using assms(8) by (simp add: parse_lu_fmt_lu)
qed

theorem C5_witness:
  "cclient_socket_send (\<lambda>_. True) conn_complete example_service ''hello world'' empty_buffer
   = Some (RC_OK, hello_buffer, example_header @ ''hello world'')
   \<and> parse_lu (fmt_lu (length ''hello world'')) = length ''hello world''"
proof -
  have len: "length ''hello world'' = 11" by simp
  have h: "example_header = ''POST '' @ path (http example_service) @ '' HTTP/1.1'' @ CRLF @
               ''Host: '' @ host (http example_service) @ CRLF @
               ''X-IOTA-API-Version: '' @ fmt_d (api_version (http example_service)) @ CRLF @
               ''Content-Type: '' @ content_type (http example_service) @ CRLF @
               ''Accept: '' @ accept (http example_service) @ CRLF @
               ''Content-Length: '' @ fmt_lu (length ''hello world'') @ CRLF @ CRLF"
    unfolding len
    by (simp add: example_header_def example_service_def fmt_d_def digit_char_def fmt_lu.simps)
  have l: "length example_header < header_size"
    using example_header_length by (simp add: header_size_def)
  have s: "sends conn_complete = int (length example_header) # [11]"
    using example_header_length by (simp add: conn_complete_def)
  have c: "0 \<le> sockfd conn_complete" by (simp add: conn_complete_def)
  have n: "\<forall>n \<in> set [11 :: int]. 0 \<le> n" by simp
  have m: "sum_list [11] = int (length ''hello world'')" by simp
  have b: "length ''hello world'' < 2 ^ 64" by simp
  show ?thesis
    by (rule C5_request_on_the_wire [OF c h l s n m b read_complete [of empty_buffer]])
qed

subsection \<open>C6: errors of the send calls\<close>

text \<open>
  C6 says that a negative result of any send call, the send of the header included,
  aborts the attempt with a send failure. \<open>http_request_data\<close> tests \<open>num_sent < 0\<close>,
  but \<open>cclient_socket_send\<close> compares the result of the header send with -1 only: when
  the header send returns -2, nothing of the header has gone out, and still the body is
  sent, the response is read and the attempt returns \<open>RC_OK\<close>.
\<close>

theorem C6_header_send_error_not_detected:
  "cclient_socket_send (\<lambda>_. True) conn_header_send_fails example_service ''hello world'' empty_buffer
   = Some (RC_OK, hello_buffer, ''hello world'')"
proof -
  have len: "length ''hello world'' = 11" by simp
  have "http_request_header (- 2 # [11]) (http example_service) 11 = Some (- 2, [], [11])"
    using http_request_header_sent [of "http example_service" 11 "- 2" "[11]"] example_header_fits
    by (simp add: example_header_template)
  then have h: "http_request_header (sends conn_header_send_fails) (http example_service)
                  (length ''hello world'') = Some (- 2, [], [11])"
    unfolding len by (simp add: conn_header_send_fails_def)
  have r: "http_response_read (\<lambda>_. True) (recvs conn_header_send_fails) empty_buffer
           = Some (RC_OK, hello_buffer)"
    using read_complete [of empty_buffer]
    by (simp add: conn_header_send_fails_def conn_complete_def)
  have d: "http_request_data [11] ''hello world'' 0 (length ''hello world'')
           = Some (RC_OK, ''hello world'')"
    by (simp add: mbedtls_socket_send_def)
  show ?thesis
    unfolding cclient_socket_send_def Let_def h
    using r d by (simp add: conn_header_send_fails_def)
qed

subsection \<open>C7: end of stream before the declared length\<close>

text \<open>
  C7: when the stream ends (or a receive fails) after the parser has reported the end of
  the headers with a declared content length and body pieces of fewer bytes in total, every
  chunk before having been consumed in full, then \<open>http_response_read\<close> returns
  \<open>RC_CCLIENT_HTTP\<close>, its result for a closed stream, and not \<open>RC_OK\<close>. (The buffer
  holds the bytes received so far. The allocation of the buffer is taken to succeed.)
\<close>

theorem C7_premature_close:
  assumes "\<forall>s \<in> set pre. 0 < num_received s \<and> num_received s \<le> parsed s"
    and "concat (map callbacks pre) = Headers_complete cl # map Body ps"
    and "cl \<noteq> UINT64_MAX" and "alloc_ok (unat cl)"
    and "length (concat ps) < unat cl"
    and "num_received s \<le> 0"
  shows "http_response_read alloc_ok (pre @ s # rest) resp
         = Some (RC_CCLIENT_HTTP, \<lparr>length_buf = unat cl, data = memcpy Map.empty 0 (concat ps)\<rparr>)"
proof -
  let ?r0 = "\<lparr>response = resp, offset = 0, status = IOTA_REQUEST_STATUS_OK\<rparr>"
  have q: "list_all (quiet alloc_ok) (concat (map callbacks pre))"
    using assms(2-4) quiet_headers_bodies by simp
  have "recv_loop alloc_ok ?r0 (pre @ s # rest)
        = recv_loop alloc_ok (run_callbacks alloc_ok (concat (map callbacks pre)) ?r0) (s # rest)"
    by (rule recv_loop_skip [OF assms(1) q]) simp
  then show ?thesis
    using assms(2-4,6)
      run_callbacks_headers_bodies [where cl = cl and alloc_ok = alloc_ok and ps = ps and r = ?r0]
    by (simp add: http_response_read_def)
qed

theorem C7_witness:
  "http_response_read (\<lambda>_. True) (recvs conn_closed_early) empty_buffer
   = Some (RC_CCLIENT_HTTP, \<lparr>length_buf = 5, data = memcpy Map.empty 0 ''he''\<rparr>)"
  using C7_premature_close [of "[Recv 60 [Headers_complete 5] 60, Recv 2 [Body ''he''] 2]" 5 "[''he'']"
      "\<lambda>_. True" "Recv 0 [] 0" "[]" empty_buffer]
  by (simp add: conn_closed_early_def UINT64_MAX_def)

subsection \<open>C8: chunk boundaries\<close>

text \<open>
  C8: for a well-formed response, that is, the parser reports over all chunks the end of
  the headers with the declared length, then body pieces that together have this length,
  then the end of the message, and consumes every chunk in full, \<open>http_response_read\<close>
  returns \<open>RC_OK\<close> with the buffer holding the concatenation of the pieces, wherever the
  chunk boundaries fall: \<open>pre\<close> distributes the callbacks over any number of chunks and
  \<open>ps\<close> cuts the body into any pieces, and the result depends on neither.
\<close>

theorem C8_chunking_independent:
  assumes "\<forall>s \<in> set pre. 0 < num_received s \<and> num_received s \<le> parsed s"
    and "0 < n" and "n \<le> p"
    and "concat (map callbacks pre) @ evl = Headers_complete cl # map Body ps"
    and "cl \<noteq> UINT64_MAX" and "alloc_ok (unat cl)"
    and "unat cl = length (concat ps)"
  shows "http_response_read alloc_ok (pre @ Recv n (evl @ [Message_complete]) p # rest) resp
         = Some (RC_OK, \<lparr>length_buf = length (concat ps), data = memcpy Map.empty 0 (concat ps)\<rparr>)
       \<and> buffer_bytes \<lparr>length_buf = length (concat ps), data = memcpy Map.empty 0 (concat ps)\<rparr>
         = map Some (concat ps)"
proof -
  let ?r0 = "\<lparr>response = resp, offset = 0, status = IOTA_REQUEST_STATUS_OK\<rparr>"
  let ?A = "concat (map callbacks pre)"
  have qall: "list_all (quiet alloc_ok) (?A @ evl)"
    using assms(4-6) quiet_headers_bodies by simp
  then have qA: "list_all (quiet alloc_ok) ?A" and qe: "list_all (quiet alloc_ok) evl"
    by simp_all
  have skip: "recv_loop alloc_ok ?r0 (pre @ Recv n (evl @ [Message_complete]) p # rest)
        = recv_loop alloc_ok (run_callbacks alloc_ok ?A ?r0) (Recv n (evl @ [Message_complete]) p # rest)"
    by (rule recv_loop_skip [OF assms(1) qA]) simp
  have "run_callbacks alloc_ok (evl @ [Message_complete]) (run_callbacks alloc_ok ?A ?r0)
        = run_callbacks alloc_ok [Message_complete] (run_callbacks alloc_ok (?A @ evl) ?r0)"
    by (simp add: run_callbacks_append [OF qA] run_callbacks_append [OF qe])
  also have "run_callbacks alloc_ok (?A @ evl) ?r0
        = ?r0\<lparr>response := \<lparr>length_buf = unat cl, data = memcpy Map.empty 0 (concat ps)\<rparr>,
              offset := length (concat ps)\<rparr>"
    using run_callbacks_headers_bodies [where cl = cl and alloc_ok = alloc_ok and ps = ps and r = ?r0]
      assms(4-6) by simp
  finally have fin: "run_callbacks alloc_ok (evl @ [Message_complete]) (run_callbacks alloc_ok ?A ?r0)
        = \<lparr>response = \<lparr>length_buf = unat cl, data = memcpy Map.empty 0 (concat ps)\<rparr>,
           offset = length (concat ps), status = IOTA_REQUEST_STATUS_DONE\<rparr>"
    by (simp add: request_parse_message_complete_def)
  show ?thesis
    using skip fin assms(2,3,7)
    by (simp add: http_response_read_def Let_def buffer_bytes_memcpy)
qed

theorem C8_witness:
  "http_response_read (\<lambda>_. True)
     [Recv 60 [Headers_complete 5] 60, Recv 5 [Body ''hello'', Message_complete] 5] empty_buffer
   = Some (RC_OK, \<lparr>length_buf = length ''hello'', data = memcpy Map.empty 0 ''hello''\<rparr>)
   \<and> http_response_read (\<lambda>_. True)
     [Recv 62 [Headers_complete 5, Body ''he''] 62, Recv 1 [Body ''l''] 1,
      Recv 2 [Body ''lo'', Message_complete] 2] empty_buffer
   = Some (RC_OK, \<lparr>length_buf = length ''hello'', data = memcpy Map.empty 0 ''hello''\<rparr>)
   \<and> buffer_bytes \<lparr>length_buf = length ''hello'', data = memcpy Map.empty 0 ''hello''\<rparr>
     = map Some ''hello''"
  using C8_chunking_independent [of "[Recv 60 [Headers_complete 5] 60]" 5 5 "[Body ''hello'']" 5
      "[''hello'']" "\<lambda>_. True" "[]" empty_buffer]
    C8_chunking_independent [of "[Recv 62 [Headers_complete 5, Body ''he''] 62, Recv 1 [Body ''l''] 1]"
      2 2 "[Body ''lo'']" 5 "[''he'', ''l'', ''lo'']" "\<lambda>_. True" "[]" empty_buffer]
  by (simp add: UINT64_MAX_def)

subsection \<open>C9: formatting the header into the fixed array\<close>

text \<open>
  C9 says that the header is formatted with a bounded primitive, so that a header longer
  than the array is a configuration error and never a write outside it. The code uses
  \<open>sprintf\<close>: with a path of 1024 characters, offset 1024 of the 1024-byte array holds
  a character of the path after the call. This is a write outside the array, and no
  error value comes back: the call and the attempt have no defined result.
\<close>

theorem C9_counterexample:
  "sprintf_header (http long_path_service) 11 1024 = Some (CHR ''a'')
   \<and> header_size = 1024
   \<and> http_request_header (sends conn_long_header) (http long_path_service) 11 = None
   \<and> cclient_socket_send (\<lambda>_. True) conn_long_header long_path_service ''hello world''
       empty_buffer = None"
proof -
  let ?t = "header_template (path (http long_path_service)) (host (http long_path_service))
     (api_version (http long_path_service)) (content_type (http long_path_service))
     (accept (http long_path_service)) 11"
  have t: "?t = ''POST '' @ replicate 1024 (CHR ''a'') @ drop 1029 ?t"
    by (simp add: header_template_def long_path_service_def)
  have "(?t @ [CHR 0x00]) ! 1024 = CHR ''a''"
    by (subst t) (simp add: nth_append)
  then have a: "sprintf_header (http long_path_service) 11 1024 = Some (CHR ''a'')"
    using long_header_length by (simp add: sprintf_header_def memcpy_apply)
  have over: "header_size \<le> length ?t"
    using long_header_length by (simp add: header_size_def)
  have h: "http_request_header sd (http long_path_service) 11 = None" for sd
    by (rule http_request_header_overrun [OF over])
  have len: "length ''hello world'' = 11" by simp
  have c: "cclient_socket_send (\<lambda>_. True) conn_long_header long_path_service ''hello world''
             empty_buffer = None"
    unfolding cclient_socket_send_def Let_def len h
    by (simp add: conn_long_header_def)
  from a h c show ?thesis by (simp add: header_size_def)
qed

text \<open>
  C9, as amended: the header is formatted with \<open>sprintf\<close>, which has no bound. The text
  and its terminating NUL are stored at the offsets from 0 to the length of the text,
  whatever their number, so the stores stay inside the array exactly when the text is
  shorter than the array. For such a text \<open>http_request_header\<close> returns the result of
  the send. For a longer path, host and header combination bytes are stored past the end
  of the array; the code has no check that would turn this into an error value, and the
  call has no defined result.
\<close>

theorem C9_sprintf_unbounded:
  "dom (sprintf_header hs n) =
     {..< max header_size (Suc (length (header_template (path hs) (host hs) (api_version hs)
                                          (content_type hs) (accept hs) n)))}
   \<and> (dom (sprintf_header hs n) \<subseteq> {..< header_size}) =
       (length (header_template (path hs) (host hs) (api_version hs)
                  (content_type hs) (accept hs) n) < header_size)
   \<and> (length (header_template (path hs) (host hs) (api_version hs)
                 (content_type hs) (accept hs) n) < header_size \<longrightarrow>
        http_request_header (k # ns) hs n =
          Some (k, take (nat k) (header_template (path hs) (host hs) (api_version hs)
                                   (content_type hs) (accept hs) n), ns))
   \<and> (header_size \<le> length (header_template (path hs) (host hs) (api_version hs)
                               (content_type hs) (accept hs) n) \<longrightarrow>
        http_request_header sd hs n = None)"
proof -
  let ?t = "header_template (path hs) (host hs) (api_version hs) (content_type hs) (accept hs) n"
  have "({..< max header_size (Suc (length ?t))} \<subseteq> {..< header_size}) = (length ?t < header_size)"
    by (auto simp: max_def)
  then show ?thesis
    using http_request_header_sent [of hs n k ns] http_request_header_overrun [of hs n sd]
    by (simp only: sprintf_header_dom) blast
qed

theorem C9_witness:
  "http_request_header [143, 11] (http example_service) 11 = Some (143, example_header, [11])
   \<and> dom (sprintf_header (http example_service) 11) = {..< header_size}
   \<and> http_request_header [1163, 11] (http long_path_service) 11 = None
   \<and> dom (sprintf_header (http long_path_service) 11) = {..< 1164}"
  using C9_sprintf_unbounded [of "http example_service" 11 143 "[11]" "[]"]
    C9_sprintf_unbounded [of "http long_path_service" 11 0 "[]" "[1163, 11]"]
    example_header_length example_header_fits long_header_length
  by (simp add: example_header_template header_size_def)

subsection \<open>C10: a chunk that the parser does not consume in full\<close>

text \<open>
  C10: at any iteration of the receive loop, a received chunk of which the parser reports
  fewer bytes parsed than were received makes \<open>http_response_read\<close> return
  \<open>RC_UTILS_SOCKET_RECV\<close>, whatever callbacks ran on that chunk; the test comes before
  the one for the status DONE, so this holds also when the message-complete callback has
  fired on the same chunk.
\<close>

theorem C10_short_consume_is_error:
  "0 < num_received s \<Longrightarrow> parsed s < num_received s \<Longrightarrow>
   recv_loop alloc_ok r (s # ss)
     = Some (RC_UTILS_SOCKET_RECV, response (run_callbacks alloc_ok (callbacks s) r))"
  by (simp add: Let_def)

theorem C10_witness:
  "recv_loop (\<lambda>_. True) \<lparr>response = empty_buffer, offset = 0, status = IOTA_REQUEST_STATUS_OK\<rparr>
     [Recv 70 [Headers_complete 5, Body ''hello'', Message_complete] 65]
   = Some (RC_UTILS_SOCKET_RECV, hello_buffer)
   \<and> status (run_callbacks (\<lambda>_. True) [Headers_complete 5, Body ''hello'', Message_complete]
        \<lparr>response = empty_buffer, offset = 0, status = IOTA_REQUEST_STATUS_OK\<rparr>)
     = IOTA_REQUEST_STATUS_DONE"
  using C10_short_consume_is_error [of "Recv 70 [Headers_complete 5, Body ''hello'', Message_complete] 65"
      "\<lambda>_. True" "\<lparr>response = empty_buffer, offset = 0, status = IOTA_REQUEST_STATUS_OK\<rparr>" "[]"]
  by (simp add: hello_buffer_def request_parse_header_complete_def char_buffer_allocate_def
        UINT64_MAX_def request_parse_data_def request_parse_message_complete_def)

end
